theory Spec2Isabelle
  imports Main
begin

section \<open>JavaScript values, errors and built-ins used by the client\<close>

text \<open>
  The client of \<^verbatim>\<open>src/blackstar.js\<close> handles three shapes of data: query objects,
  arrays of primitive values inside a query, and arrays of chunk objects decoded from JSON.

  Primitive values. \<open>PNum n\<close> is the Number whose value is the integer \<open>n\<close>; the
  identifiers of the content store are integers, and an integer Number is exact while
  \<open>isSafeInteger\<close> holds. Fractions, NaN and the infinities are outside the model.
  A property that is absent from an object reads as \<open>PUndefined\<close>.
  Strings are lists of code units below 256.
\<close>

datatype prim = PUndefined | PNull | PBool bool | PNum int | PStr string

text \<open>A value held by a property: a primitive, or an array of primitives.\<close>

datatype jsval = Prim prim | Arr "prim list"

text \<open>
  What the code throws: \<^verbatim>\<open>new Error(message)\<close>, or the engine's TypeError when a
  property of \<^verbatim>\<open>undefined\<close> is read or a value that is no function is called.
\<close>

datatype js_error = Error string | TypeError

definition isSafeInteger :: "int \<Rightarrow> bool" where
  "isSafeInteger n \<longleftrightarrow> \<bar>n\<bar> \<le> 2 ^ 53 - 1"

text \<open>\<^verbatim>\<open>typeof\<close> on a primitive.\<close>

fun typeof :: "prim \<Rightarrow> string" where
  "typeof PUndefined = ''undefined''"
| "typeof PNull = ''object''"
| "typeof (PBool b) = ''boolean''"
| "typeof (PNum n) = ''number''"
| "typeof (PStr s) = ''string''"

text \<open>
  Strict equality \<^verbatim>\<open>===\<close> on primitives: values of different types are never equal;
  within one type the values are compared (integers by value, strings code unit by code
  unit).
\<close>

fun strict_equals :: "prim \<Rightarrow> prim \<Rightarrow> bool" where
  "strict_equals PUndefined PUndefined = True"
| "strict_equals PNull PNull = True"
| "strict_equals (PBool a) (PBool b) = (a = b)"
| "strict_equals (PNum a) (PNum b) = (a = b)"
| "strict_equals (PStr a) (PStr b) = (a = b)"
| "strict_equals _ _ = False"

text \<open>Number::toString on an integer: the decimal digits, with a sign when negative.\<close>

fun digits :: "nat \<Rightarrow> string" where
  "digits n =
     (if n < 10 then [''0123456789'' ! n]
      else digits (n div 10) @ [''0123456789'' ! (n mod 10)])"

declare digits.simps [simp del]

definition Number_toString :: "int \<Rightarrow> string" where
  "Number_toString n = (if n < 0 then CHR ''-'' # digits (nat (- n)) else digits (nat n))"

fun ToString :: "prim \<Rightarrow> string" where
  "ToString PUndefined = ''undefined''"
| "ToString PNull = ''null''"
| "ToString (PBool b) = (if b then ''true'' else ''false'')"
| "ToString (PNum n) = Number_toString n"
| "ToString (PStr s) = s"

text \<open>
  \<^verbatim>\<open>Array.prototype.join(sep)\<close>: the loop of the language definition. \<open>k\<close> is the
  index of the element about to be appended and \<open>R\<close> the string built so far; the
  separator goes in front of every element but the first, and \<^verbatim>\<open>undefined\<close> and
  \<^verbatim>\<open>null\<close> elements contribute the empty string.
\<close>

definition join_element :: "prim \<Rightarrow> string" where
  "join_element element =
     (if element = PUndefined \<or> element = PNull then [] else ToString element)"

fun Array_join_from :: "nat \<Rightarrow> string \<Rightarrow> prim list \<Rightarrow> string \<Rightarrow> string" where
  "Array_join_from k sep [] R = R"
| "Array_join_from k sep (element # rest) R =
     Array_join_from (Suc k) sep rest ((if 0 < k then R @ sep else R) @ join_element element)"

definition Array_join :: "string \<Rightarrow> prim list \<Rightarrow> string" where
  "Array_join sep xs = Array_join_from 0 sep xs []"

text \<open>
  \<^verbatim>\<open>Array.prototype.some\<close>, \<^verbatim>\<open>find\<close> and \<^verbatim>\<open>filter\<close>: scans from index 0 upwards.
  The callback of \<open>Array_filter\<close> may throw; the exception leaves the scan at once.
\<close>

fun Array_some :: "('a \<Rightarrow> bool) \<Rightarrow> 'a list \<Rightarrow> bool" where
  "Array_some p [] = False"
| "Array_some p (x # xs) = (if p x then True else Array_some p xs)"

fun Array_find :: "('a \<Rightarrow> bool) \<Rightarrow> 'a list \<Rightarrow> 'a option" where
  "Array_find p [] = None"
| "Array_find p (x # xs) = (if p x then Some x else Array_find p xs)"

fun Array_filter :: "('a \<Rightarrow> js_error + bool) \<Rightarrow> 'a list \<Rightarrow> js_error + 'a list" where
  "Array_filter p [] = Inr []"
| "Array_filter p (x # xs) =
     (case p x of
        Inl e \<Rightarrow> Inl e
      | Inr keep \<Rightarrow>
          (case Array_filter p xs of
             Inl e \<Rightarrow> Inl e
           | Inr kept \<Rightarrow> Inr (if keep then x # kept else kept)))"

section \<open>The client and its URLs\<close>

text \<open>
  A query object is its list of own properties, in insertion order.
  \<open>Object_keys\<close> lists the property names; \<open>Get\<close> reads a property, giving
  \<^verbatim>\<open>undefined\<close> for a name the object does not have.
\<close>

type_synonym query = "(string \<times> jsval) list"

definition Object_keys :: "query \<Rightarrow> string list" where
  "Object_keys request = map fst request"

definition Get :: "query \<Rightarrow> string \<Rightarrow> jsval" where
  "Get request key = (case map_of request key of None \<Rightarrow> Prim PUndefined | Some v \<Rightarrow> v)"

text \<open>
  The options of a client; \<open>token = None\<close> is \<^verbatim>\<open>null\<close>. The callback for
  unauthorised responses takes no part in what follows.
\<close>

record options =
  showEditControls :: bool
  token :: "string option"

record client =
  serverUrl :: string
  apiUrl :: string
  options :: options

text \<open>
  \<^verbatim>\<open>/.+\/$/.test(input)\<close>: somewhere in the input one or more characters other than
  line terminators, then a slash, then the end of the input. Only the last two code units
  decide: the last is the slash, the one before it exists and ends no line. Of the four
  line terminators of the language, line feed and carriage return are code units below 256.
\<close>

definition isLineTerminator :: "char \<Rightarrow> bool" where
  "isLineTerminator c \<longleftrightarrow> c = CHR 0x0A \<or> c = CHR 0x0D"

definition endsWithForwardSlash :: "string \<Rightarrow> bool" where
  "endsWithForwardSlash input =
     (case rev input of
        c # d # _ \<Rightarrow> c = CHR ''/'' \<and> \<not> isLineTerminator d
      | _ \<Rightarrow> False)"

definition default_options :: options where
  "default_options = \<lparr>showEditControls = False, token = None\<rparr>"

definition Client :: "string \<Rightarrow> options option \<Rightarrow> client" where
  "Client url opts =
     (let serverUrl = url @ (if endsWithForwardSlash url then [] else ''/'');
          apiUrl = serverUrl @ ''api/content/'';
          options = (case opts of None \<Rightarrow> default_options | Some os \<Rightarrow> os)
      in \<lparr>serverUrl = serverUrl, apiUrl = apiUrl, options = options\<rparr>)"

text \<open>
  \<^verbatim>\<open>Client.prototype.create\<close> posts to \<^verbatim>\<open>this.apiUrl.replace(/\/$/g, '')\<close>: the URL
  without its last code unit when that is a slash.
\<close>

definition replace_trailing_slash :: "string \<Rightarrow> string" where
  "replace_trailing_slash s =
     (case rev s of
        c # r \<Rightarrow> if c = CHR ''/'' then rev r else s
      | [] \<Rightarrow> s)"

definition create_url :: "client \<Rightarrow> string" where
  "create_url this = replace_trailing_slash (apiUrl this)"

text \<open>\<^verbatim>\<open>Client.prototype.requestKind\<close>, with its four local functions.\<close>

definition isRequestKind :: "query \<Rightarrow> string \<Rightarrow> bool" where
  "isRequestKind request kind = Array_some (\<lambda>item. item = kind) (Object_keys request)"

definition isIdsRequest :: "query \<Rightarrow> bool" where
  "isIdsRequest request = isRequestKind request ''ids''"

definition isNamesRequest :: "query \<Rightarrow> bool" where
  "isNamesRequest request = isRequestKind request ''names''"

definition isTagsRequest :: "query \<Rightarrow> bool" where
  "isTagsRequest request = isRequestKind request ''tags''"

definition requestKind :: "query \<Rightarrow> js_error + string" where
  "requestKind request =
     (if isIdsRequest request \<and> \<not> isNamesRequest request \<and> \<not> isTagsRequest request
      then Inr ''ids''
      else if \<not> isIdsRequest request \<and> isNamesRequest request \<and> \<not> isTagsRequest request
      then Inr ''names''
      else if \<not> isIdsRequest request \<and> \<not> isNamesRequest request \<and> isTagsRequest request
      then Inr ''tags''
      else Inl (Error
        ''A request must include exactly one of the following collections: ids, names, tags''))"

text \<open>
  \<^verbatim>\<open>request.ids.join('/')\<close>: reading \<^verbatim>\<open>join\<close> off a value that is no array gives no
  function, and the call throws.
\<close>

definition call_join :: "jsval \<Rightarrow> string \<Rightarrow> js_error + string" where
  "call_join v sep = (case v of Arr xs \<Rightarrow> Inr (Array_join sep xs) | Prim p \<Rightarrow> Inl TypeError)"

text \<open>
  \<^verbatim>\<open>Client.prototype.requestToUrl\<close>: the switch over the kind, the default branch
  calling \<open>requestKind\<close> a second time for its message.
\<close>

definition requestToUrl :: "client \<Rightarrow> query \<Rightarrow> js_error + string" where
  "requestToUrl this request =
     (case requestKind request of
        Inl e \<Rightarrow> Inl e
      | Inr kind \<Rightarrow>
          if kind = ''ids'' then
            (case call_join (Get request ''ids'') ''/'' of
               Inl e \<Rightarrow> Inl e
             | Inr joined \<Rightarrow> Inr ((apiUrl this @ ''byids/'') @ joined))
          else if kind = ''names'' then
            (case call_join (Get request ''names'') ''/'' of
               Inl e \<Rightarrow> Inl e
             | Inr joined \<Rightarrow> Inr ((apiUrl this @ ''bynames/'') @ joined))
          else if kind = ''tags'' then
            (case call_join (Get request ''tags'') ''/'' of
               Inl e \<Rightarrow> Inl e
             | Inr joined \<Rightarrow> Inr ((apiUrl this @ ''bytags/'') @ joined))
          else
            (case requestKind request of
               Inl e \<Rightarrow> Inl e
             | Inr kind' \<Rightarrow> Inl (Error (''Unknown request kind: '' @ kind'))))"


section \<open>The transport\<close>

text \<open>
  The world outside the client: the calls made to \<^verbatim>\<open>fetch\<close>, oldest first, and the
  cookies written through \<^verbatim>\<open>docCookies.setItem\<close> (key and value before encoding).
\<close>

record fetch_call =
  fetch_url :: string
  fetch_headers :: "(string \<times> string) list"
  fetch_credentials :: string

record world =
  network :: "fetch_call list"
  document_cookie :: "(string \<times> string) list"

text \<open>
  A promise is the call to \<^verbatim>\<open>fetch\<close> it waits for (its index in \<open>network\<close>) and the
  callbacks chained onto it with \<^verbatim>\<open>then\<close>, which run only after the response arrives.
\<close>

datatype callback = CheckUnauthorized | ResponseJson | EnrichCollection

record promise =
  awaits :: nat
  thens :: "callback list"

definition then_promise :: "promise \<Rightarrow> callback \<Rightarrow> promise" where
  "then_promise p f = p\<lparr>thens := thens p @ [f]\<rparr>"

text \<open>
  \<^verbatim>\<open>Client.prototype.blackstarFetch(url)\<close>, called with the URL alone as \<^verbatim>\<open>get\<close> does:
  the options start empty. \<open>supplied_token\<close> is the token when \<^verbatim>\<open>tokenSupplied\<close> holds.
\<close>

definition supplied_token :: "client \<Rightarrow> string option" where
  "supplied_token this =
     (case token (options this) of
        None \<Rightarrow> None
      | Some t \<Rightarrow> if 0 < length t then Some t else None)"

definition blackstarFetch :: "client \<Rightarrow> string \<Rightarrow> world \<Rightarrow> promise \<times> world" where
  "blackstarFetch this url w =
     (let headers = (case supplied_token this of
                       None \<Rightarrow> []
                     | Some t \<Rightarrow> [(''Authorization'', ''Bearer '' @ t)]);
          w1 = (case supplied_token this of
                  None \<Rightarrow> w
                | Some t \<Rightarrow> w\<lparr>document_cookie := document_cookie w @ [(''t'', t)]\<rparr>);
          call = \<lparr>fetch_url = url, fetch_headers = headers, fetch_credentials = ''include''\<rparr>;
          w2 = w1\<lparr>network := network w1 @ [call]\<rparr>
      in (then_promise \<lparr>awaits = length (network w1), thens = []\<rparr> CheckUnauthorized, w2))"

text \<open>\<^verbatim>\<open>Client.prototype.get\<close>: the URL is computed first, outside any promise.\<close>

definition get :: "client \<Rightarrow> query \<Rightarrow> world \<Rightarrow> (js_error + promise) \<times> world" where
  "get this request w =
     (case requestToUrl this request of
        Inl e \<Rightarrow> (Inl e, w)
      | Inr url \<Rightarrow>
          (case blackstarFetch this url w of
             (p, w') \<Rightarrow> (Inr (then_promise (then_promise p ResponseJson) EnrichCollection), w')))"

section \<open>Collections of chunks and their lookups\<close>

text \<open>
  A chunk as decoded from JSON, its properties \<^verbatim>\<open>id\<close>, \<^verbatim>\<open>name\<close>, \<^verbatim>\<open>tags\<close> and
  \<^verbatim>\<open>value\<close> under the prefix \<open>chunk_\<close>. \<open>chunk_tags\<close> is whatever the \<^verbatim>\<open>tags\<close>
  property holds: an array, or a primitive (\<^verbatim>\<open>undefined\<close> when the property is missing).
\<close>

record chunk =
  chunk_id :: prim
  chunk_name :: prim
  chunk_tags :: jsval
  chunk_value :: prim

text \<open>
  Arrays are objects with identity: the heap maps the address of an array to its elements
  and to the three members enrichment adds. A member is a function closed over the
  variable \<^verbatim>\<open>data\<close>, that is, over the address of the array it was made for.
  An address the heap does not map refers to no object (\<^verbatim>\<open>null\<close>).
\<close>

type_synonym addr = nat

datatype closure = ByName addr | ById addr | ByTag addr

record array_obj =
  elems :: "chunk list"
  byName :: "closure option"
  byId :: "closure option"
  byTag :: "closure option"

type_synonym heap = "addr \<rightharpoonup> array_obj"

text \<open>\<^verbatim>\<open>Client.prototype.enrichCollectionWithByMethods\<close>: three assignments, then the argument.\<close>

definition enrichCollectionWithByMethods :: "heap \<Rightarrow> addr \<Rightarrow> js_error + heap \<times> addr" where
  "enrichCollectionWithByMethods h data =
     (case h data of
        None \<Rightarrow> Inl TypeError
      | Some arr \<Rightarrow>
          Inr (h(data \<mapsto> arr\<lparr>byName := Some (ByName data),
                              byId := Some (ById data),
                              byTag := Some (ByTag data)\<rparr>), data))"

text \<open>
  The bodies of the three functions, run in the heap of the moment of the call.
  \<^verbatim>\<open>item.tags.some(...)\<close> throws when \<^verbatim>\<open>item.tags\<close> is no array.
  \<^verbatim>\<open>filter\<close> returns a new array, given here by its elements.
\<close>

datatype lookup_result = Item "chunk option" | Items "chunk list"

definition has_tag :: "prim \<Rightarrow> chunk \<Rightarrow> js_error + bool" where
  "has_tag tag item =
     (case chunk_tags item of
        Arr ts \<Rightarrow> Inr (Array_some (\<lambda>t. strict_equals t tag) ts)
      | Prim p \<Rightarrow> Inl TypeError)"

fun apply_closure :: "heap \<Rightarrow> closure \<Rightarrow> prim \<Rightarrow> js_error + lookup_result" where
  "apply_closure h (ByName data) name =
     (case h data of
        None \<Rightarrow> Inl TypeError
      | Some arr \<Rightarrow> Inr (Item (Array_find (\<lambda>item. strict_equals (chunk_name item) name) (elems arr))))"
| "apply_closure h (ById data) id' =
     (case h data of
        None \<Rightarrow> Inl TypeError
      | Some arr \<Rightarrow> Inr (Item (Array_find (\<lambda>item. strict_equals (chunk_id item) id') (elems arr))))"
| "apply_closure h (ByTag data) tag =
     (case h data of
        None \<Rightarrow> Inl TypeError
      | Some arr \<Rightarrow>
          (case Array_filter (has_tag tag) (elems arr) of
             Inl e \<Rightarrow> Inl e
           | Inr kept \<Rightarrow> Inr (Items kept)))"

text \<open>
  A call \<^verbatim>\<open>results.byId(v)\<close> on the array at address \<open>a\<close>: the member is read off
  the array and applied; a missing member is \<^verbatim>\<open>undefined\<close> and the call throws.
\<close>

definition call_member ::
  "heap \<Rightarrow> addr \<Rightarrow> (array_obj \<Rightarrow> closure option) \<Rightarrow> prim \<Rightarrow> js_error + lookup_result" where
  "call_member h a member v =
     (case h a of
        None \<Rightarrow> Inl TypeError
      | Some arr \<Rightarrow>
          (case member arr of
             None \<Rightarrow> Inl TypeError
           | Some f \<Rightarrow> apply_closure h f v))"

definition call_byName :: "heap \<Rightarrow> addr \<Rightarrow> prim \<Rightarrow> js_error + lookup_result" where
  "call_byName h a v = call_member h a byName v"

definition call_byId :: "heap \<Rightarrow> addr \<Rightarrow> prim \<Rightarrow> js_error + lookup_result" where
  "call_byId h a v = call_member h a byId v"

definition call_byTag :: "heap \<Rightarrow> addr \<Rightarrow> prim \<Rightarrow> js_error + lookup_result" where
  "call_byTag h a v = call_member h a byTag v"

text \<open>\<^verbatim>\<open>Array.prototype.push\<close> of one element, as a caller may do after enrichment.\<close>

definition Array_push :: "heap \<Rightarrow> addr \<Rightarrow> chunk \<Rightarrow> js_error + heap" where
  "Array_push h a c =
     (case h a of
        None \<Rightarrow> Inl TypeError
      | Some arr \<Rightarrow> Inr (h(a \<mapsto> arr\<lparr>elems := elems arr @ [c]\<rparr>)))"

text \<open>The collection of the test suite (\<^verbatim>\<open>src/test/javascriptClientTests.js\<close>), at address 0.\<close>

definition chunk6 :: chunk where
  "chunk6 = \<lparr>chunk_id = PNum 6, chunk_name = PStr ''index-heading'',
             chunk_tags = Arr [PStr ''index-page''],
             chunk_value = PStr ''This is the page heading''\<rparr>"

definition chunk7 :: chunk where
  "chunk7 = \<lparr>chunk_id = PNum 7, chunk_name = PStr ''index-title'',
             chunk_tags = Arr [PStr ''index-page''],
             chunk_value = PStr ''This is a title''\<rparr>"

definition chunk8 :: chunk where
  "chunk8 = \<lparr>chunk_id = PNum 8, chunk_name = PStr ''index-content'',
             chunk_tags = Arr [PStr ''index-page''],
             chunk_value = PStr ''<p>The <b>Seebeck effect</b> is the conversion of ''\<rparr>"

definition chunk9 :: chunk where
  "chunk9 = \<lparr>chunk_id = PNum 9, chunk_name = PStr ''index-footer'',
             chunk_tags = Arr [PStr ''index-page''],
             chunk_value = PStr ''This is a footer''\<rparr>"

definition parsed :: heap where
  "parsed = [0 \<mapsto> \<lparr>elems = [chunk6, chunk7, chunk8, chunk9],
                    byName = None, byId = None, byTag = None\<rparr>]"

definition results :: "js_error + heap \<times> addr" where
  "results = enrichCollectionWithByMethods parsed 0"

section \<open>The specification's vocabulary\<close>

text \<open>
  The request kinds of the specification, the key and the path segment of each, and its
  classifier: count how many of the three recognised keys are present in the query; exactly
  one gives the kind of that key, any other count is a failure.
\<close>

datatype RequestKind = Ids | Names | Tags

fun kind_key :: "RequestKind \<Rightarrow> string" where
  "kind_key Ids = ''ids''"
| "kind_key Names = ''names''"
| "kind_key Tags = ''tags''"

fun mode_segment :: "RequestKind \<Rightarrow> string" where
  "mode_segment Ids = ''byids/''"
| "mode_segment Names = ''bynames/''"
| "mode_segment Tags = ''bytags/''"

definition recognized_keys :: "string list" where
  "recognized_keys = [''ids'', ''names'', ''tags'']"

definition present :: "query \<Rightarrow> string \<Rightarrow> bool" where
  "present q k \<longleftrightarrow> k \<in> fst ` set q"

definition present_count :: "query \<Rightarrow> nat" where
  "present_count q = length (filter (present q) recognized_keys)"

definition classify :: "query \<Rightarrow> RequestKind option" where
  "classify q =
     (if present_count q = 1
      then Some (if present q ''ids'' then Ids else if present q ''names'' then Names else Tags)
      else None)"

definition classification_error :: js_error where
  "classification_error =
     Error ''A request must include exactly one of the following collections: ids, names, tags''"

text \<open>Strings joined with a separator between neighbours, in their order.\<close>

fun separated :: "string \<Rightarrow> string list \<Rightarrow> string" where
  "separated sep [] = []"
| "separated sep [x] = x"
| "separated sep (x # y # ys) = x @ sep @ separated sep (y # ys)"

text \<open>The value of a decimal numeral, most significant digit first.\<close>

definition digit_value :: "char \<Rightarrow> nat" where
  "digit_value c = of_char c - 48"

definition decimal_value :: "string \<Rightarrow> nat" where
  "decimal_value s = foldl (\<lambda>acc c. 10 * acc + digit_value c) 0 s"

definition is_digit :: "char \<Rightarrow> bool" where
  "is_digit c \<longleftrightarrow> c \<in> set ''0123456789''"

definition numeral_of :: "string \<Rightarrow> nat \<Rightarrow> bool" where
  "numeral_of ds m \<longleftrightarrow> ds \<noteq> [] \<and> list_all is_digit ds \<and> decimal_value ds = m"

text \<open>A string is the decimal string of an integer: a minus sign exactly when negative.\<close>

definition decimal_of :: "string \<Rightarrow> int \<Rightarrow> bool" where
  "decimal_of s n \<longleftrightarrow>
     (if n < 0 then (case s of [] \<Rightarrow> False | c # ds \<Rightarrow> c = CHR ''-'' \<and> numeral_of ds (nat (- n)))
      else numeral_of s (nat n))"

text \<open>The tags of a chunk whose \<^verbatim>\<open>tags\<close> property is an array.\<close>

definition tags_of :: "chunk \<Rightarrow> prim list" where
  "tags_of c = (case chunk_tags c of Arr ts \<Rightarrow> ts | Prim p \<Rightarrow> [])"


section \<open>Facts about the built-ins\<close>

lemma strict_equals_iff: "strict_equals a b \<longleftrightarrow> a = b"
  by (cases a; cases b) auto

lemma Array_some_iff: "Array_some p xs \<longleftrightarrow> (\<exists>x\<in>set xs. p x)"
  by (induction xs) auto

lemma Array_find_find: "Array_find p xs = find p xs"
  by (induction xs) auto

lemma isRequestKind_present: "isRequestKind q k \<longleftrightarrow> present q k"
  by (auto simp: isRequestKind_def present_def Object_keys_def Array_some_iff)

lemma Array_join_from_Suc:
  "Array_join_from (Suc k) sep xs R = R @ concat (map (\<lambda>x. sep @ join_element x) xs)"
  by (induction xs arbitrary: k R) simp_all

lemma separated_Cons: "separated sep (x # xs) = x @ concat (map (\<lambda>y. sep @ y) xs)"
  by (induction xs arbitrary: x) simp_all

lemma Array_join_separated: "Array_join sep xs = separated sep (map join_element xs)"
proof (cases xs)
  case Nil
  then show ?thesis by (simp add: Array_join_def)
next
  case (Cons x ys)
  then show ?thesis
    by (simp add: Array_join_def Array_join_from_Suc separated_Cons comp_def del: separated.simps)
qed

lemma digits_nonempty: "digits n \<noteq> []"
  by (subst digits.simps) simp

lemma digit_value_nth: "d < 10 \<Longrightarrow> digit_value (''0123456789'' ! d) = d"
proof -
  assume "d < 10"
  then have "d \<in> {0,1,2,3,4,5,6,7,8,9}" by auto
  then show ?thesis by (auto simp: digit_value_def)
qed

lemma decimal_value_snoc: "decimal_value (s @ [c]) = 10 * decimal_value s + digit_value c"
  by (simp add: decimal_value_def)

lemma decimal_value_digits: "decimal_value (digits n) = n"
proof (induction n rule: digits.induct)
  case (1 n)
  show ?case
  proof (cases "n < 10")
    case True
    then show ?thesis by (subst digits.simps) (simp add: decimal_value_def digit_value_nth)
  next
    case False
    then show ?thesis using 1
      by (subst digits.simps) (simp add: decimal_value_snoc digit_value_nth)
  qed
qed

lemma digits_are_digits: "set (digits n) \<subseteq> set ''0123456789''"
proof (induction n rule: digits.induct)
  case (1 n)
  have nth: "\<And>d. d < 10 \<Longrightarrow> ''0123456789'' ! d \<in> set ''0123456789''"
    by (rule nth_mem) simp
  show ?case
  proof (cases "n < 10")
    case True
    then show ?thesis using nth [of n] by (subst digits.simps) simp
  next
    case False
    then show ?thesis using 1 nth [of "n mod 10"]
      by (subst digits.simps) simp
  qed
qed

lemma requestKind_classify:
  "requestKind q = (case classify q of Some k \<Rightarrow> Inr (kind_key k) | None \<Rightarrow> Inl classification_error)"
  by (simp add: requestKind_def classify_def isIdsRequest_def isNamesRequest_def isTagsRequest_def
      isRequestKind_present present_count_def recognized_keys_def classification_error_def)

lemma Number_toString_decimal: "decimal_of (Number_toString n) n"
proof (cases "n < 0")
  case True
  then show ?thesis
    using digits_are_digits [of "nat (- n)"]
    by (simp add: decimal_of_def Number_toString_def numeral_of_def digits_nonempty
      decimal_value_digits list_all_iff is_digit_def subset_iff)
next
  case False
  then show ?thesis
    using digits_are_digits [of "nat n"]
    by (simp add: decimal_of_def Number_toString_def numeral_of_def digits_nonempty
      decimal_value_digits list_all_iff is_digit_def subset_iff)
qed

lemma classify_cases:
  "classify q =
     (if present q ''ids'' \<and> \<not> present q ''names'' \<and> \<not> present q ''tags'' then Some Ids
      else if \<not> present q ''ids'' \<and> present q ''names'' \<and> \<not> present q ''tags'' then Some Names
      else if \<not> present q ''ids'' \<and> \<not> present q ''names'' \<and> present q ''tags'' then Some Tags
      else None)"
  by (simp add: classify_def present_count_def recognized_keys_def)


lemma classify_Some_present:
  assumes "classify q = Some k"
  shows "present q (kind_key k) \<and> (\<forall>k'. present q (kind_key k') \<longrightarrow> k' = k)"
proof -
  have p: "present q (kind_key k)"
    using assms by (cases k) (simp_all add: classify_cases split: if_splits)
  have u: "present q (kind_key k') \<Longrightarrow> k' = k" for k'
    using assms by (cases k; cases k') (simp_all add: classify_cases split: if_splits)
  from p u show ?thesis by blast
qed

lemma present_cong:
  "(\<forall>k\<in>set recognized_keys. present q' k = present q k) \<Longrightarrow> classify q' = classify q"
  by (simp add: classify_cases recognized_keys_def)

lemma present_append: "present (q @ [(k, v)]) k' \<longleftrightarrow> present q k' \<or> k' = k"
  by (auto simp: present_def)


section \<open>Classification of requests\<close>

text \<open>
  Claim C1. \<open>requestKind\<close> returns the key of the request kind exactly when exactly one
  of the keys ids, names, tags is present in the query, and throws the classification error
  when none or several are. Its result depends on nothing but which of the three keys are
  present: other keys are ignored, and so are the values, an empty array included.
\<close>

theorem requestKind_exactly_one:
  "requestKind q =
     (case classify q of Some k \<Rightarrow> Inr (kind_key k) | None \<Rightarrow> Inl classification_error)
   \<and> (classify q \<noteq> None \<longleftrightarrow> present_count q = 1)
   \<and> (\<forall>k. classify q = Some k \<longrightarrow>
         present q (kind_key k) \<and> (\<forall>k'. present q (kind_key k') \<longrightarrow> k' = k))
   \<and> (\<forall>q'. (\<forall>k\<in>set recognized_keys. present q' k = present q k) \<longrightarrow>
         requestKind q' = requestKind q)
   \<and> (\<forall>k v. k \<notin> set recognized_keys \<longrightarrow> requestKind (q @ [(k, v)]) = requestKind q)"
proof (intro conjI)
  show "requestKind q =
     (case classify q of Some k \<Rightarrow> Inr (kind_key k) | None \<Rightarrow> Inl classification_error)"
    by (rule requestKind_classify)
  show "classify q \<noteq> None \<longleftrightarrow> present_count q = 1"
    by (simp add: classify_def)
  show "\<forall>k. classify q = Some k \<longrightarrow>
         present q (kind_key k) \<and> (\<forall>k'. present q (kind_key k') \<longrightarrow> k' = k)"
    using classify_Some_present by blast
  show "\<forall>q'. (\<forall>k\<in>set recognized_keys. present q' k = present q k) \<longrightarrow>
         requestKind q' = requestKind q"
  proof (intro allI impI)
    fix q' assume "\<forall>k\<in>set recognized_keys. present q' k = present q k"
    then have "classify q' = classify q"
      by (rule present_cong)
    then show "requestKind q' = requestKind q"
      by (simp add: requestKind_classify)
  qed
  show "\<forall>k v. k \<notin> set recognized_keys \<longrightarrow> requestKind (q @ [(k, v)]) = requestKind q"
  proof (intro allI impI)
    fix k v assume "k \<notin> set recognized_keys"
    then have "\<forall>k'\<in>set recognized_keys. present (q @ [(k, v)]) k' = present q k'"
      by (auto simp: present_append)
    then have "classify (q @ [(k, v)]) = classify q"
      by (rule present_cong)
    then show "requestKind (q @ [(k, v)]) = requestKind q"
      by (simp add: requestKind_classify)
  qed
qed


theorem requestKind_exactly_one_witness:
  "classify [(''ids'', Arr [])] = Some Ids
   \<and> requestKind [(''ids'', Arr [])] = Inr ''ids''
   \<and> ''foo'' \<notin> set recognized_keys
   \<and> requestKind ([(''ids'', Arr [PNum 1])] @ [(''foo'', Prim (PStr ''bar''))]) = Inr ''ids''
   \<and> classify [] = None
   \<and> requestKind [] = Inl classification_error"
proof -
  have c1: "classify [(''ids'', Arr [])] = Some Ids"
    by (simp add: classify_cases present_def)
  have c2: "classify [(''ids'', Arr [PNum 1])] = Some Ids"
    by (simp add: classify_cases present_def)
  have c3: "classify [] = None"
    by (simp add: classify_cases present_def)
  have f: "''foo'' \<notin> set recognized_keys" by (simp add: recognized_keys_def)
  have a: "requestKind [(''ids'', Arr [])] = Inr ''ids''"
    by (simp add: requestKind_exactly_one [of "[(''ids'', Arr [])]", THEN conjunct1] c1)
  have b0: "requestKind [(''ids'', Arr [PNum 1])] = Inr ''ids''"
    by (simp add: requestKind_exactly_one [of "[(''ids'', Arr [PNum 1])]", THEN conjunct1] c2)
  have e: "\<forall>k v. k \<notin> set recognized_keys \<longrightarrow>
      requestKind ([(''ids'', Arr [PNum 1])] @ [(k, v)]) = requestKind [(''ids'', Arr [PNum 1])]"
    by (rule requestKind_exactly_one [of "[(''ids'', Arr [PNum 1])]",
          THEN conjunct2, THEN conjunct2, THEN conjunct2, THEN conjunct2])
  have b: "requestKind ([(''ids'', Arr [PNum 1])] @ [(''foo'', Prim (PStr ''bar''))]) = Inr ''ids''"
    by (rule trans [OF e [rule_format, OF f] b0])
  have d: "requestKind [] = Inl classification_error"
    by (simp add: requestKind_exactly_one [of "[]", THEN conjunct1] c3)
  show ?thesis
    by (intro conjI) (rule c1 a f b c3 d)+
qed


section \<open>Construction of the request URL\<close>

lemma requestToUrl_classified:
  assumes "classify q = Some k"
  shows "requestToUrl c q =
     (case call_join (Get q (kind_key k)) ''/'' of
        Inl e \<Rightarrow> Inl e
      | Inr joined \<Rightarrow> Inr (apiUrl c @ mode_segment k @ joined))"
  using assms by (cases k) (simp_all add: requestToUrl_def requestKind_classify split: sum.splits)

lemma join_element_PNum: "map (join_element \<circ> PNum) ns = map Number_toString ns"
  by (simp add: join_element_def comp_def)

lemma join_element_PStr: "map (join_element \<circ> PStr) ss = ss"
  by (simp add: join_element_def comp_def)

lemma apiUrl_Client_h: "apiUrl (Client ''http://h'' None) = ''http://h/api/content/''"
  by (simp add: Client_def endsWithForwardSlash_def isLineTerminator_def)

lemma digits_29: "digits 29 = ''29''" by code_simp
lemma digits_30: "digits 30 = ''30''" by code_simp

text \<open>
  Claim C2. For a query in which exactly one of ids, names, tags is present and holds an
  array, \<open>requestToUrl\<close> returns the client's \<open>apiUrl\<close>, then the segment of the kind,
  then the elements of the array joined with a slash in the order of the array, nothing
  sorted and nothing dropped; an identifier is rendered as its decimal string. On the client
  of \<^verbatim>\<open>http://h\<close> the query \<^verbatim>\<open>{ids:[29,30]}\<close> gives
  \<^verbatim>\<open>http://h/api/content/byids/29/30\<close>.
\<close>

theorem requestToUrl_path:
  "(classify q = Some Ids \<and> Get q ''ids'' = Arr (map PNum ns) \<and> (\<forall>n\<in>set ns. isSafeInteger n) \<longrightarrow>
      requestToUrl c q = Inr (apiUrl c @ ''byids/'' @ separated ''/'' (map Number_toString ns))
      \<and> (\<forall>n\<in>set ns. decimal_of (Number_toString n) n))
   \<and> (classify q = Some Names \<and> Get q ''names'' = Arr (map PStr ss) \<longrightarrow>
      requestToUrl c q = Inr (apiUrl c @ ''bynames/'' @ separated ''/'' ss))
   \<and> (classify q = Some Tags \<and> Get q ''tags'' = Arr (map PStr ss) \<longrightarrow>
      requestToUrl c q = Inr (apiUrl c @ ''bytags/'' @ separated ''/'' ss))"
proof (intro conjI impI ballI)
  assume "classify q = Some Ids \<and> Get q ''ids'' = Arr (map PNum ns) \<and> (\<forall>n\<in>set ns. isSafeInteger n)"
  then show "requestToUrl c q = Inr (apiUrl c @ ''byids/'' @ separated ''/'' (map Number_toString ns))"
    by (simp add: requestToUrl_classified call_join_def Array_join_separated join_element_PNum)
next
  fix n show "decimal_of (Number_toString n) n" by (rule Number_toString_decimal)
next
  assume "classify q = Some Names \<and> Get q ''names'' = Arr (map PStr ss)"
  then show "requestToUrl c q = Inr (apiUrl c @ ''bynames/'' @ separated ''/'' ss)"
    by (simp add: requestToUrl_classified call_join_def Array_join_separated join_element_PStr)
next
  assume "classify q = Some Tags \<and> Get q ''tags'' = Arr (map PStr ss)"
  then show "requestToUrl c q = Inr (apiUrl c @ ''bytags/'' @ separated ''/'' ss)"
    by (simp add: requestToUrl_classified call_join_def Array_join_separated join_element_PStr)
qed

theorem requestToUrl_path_witness:
  "classify [(''ids'', Arr [PNum 29, PNum 30])] = Some Ids
   \<and> Get [(''ids'', Arr [PNum 29, PNum 30])] ''ids'' = Arr (map PNum [29, 30])
   \<and> isSafeInteger 29 \<and> isSafeInteger 30
   \<and> apiUrl (Client ''http://h'' None) = ''http://h/api/content/''
   \<and> requestToUrl (Client ''http://h'' None) [(''ids'', Arr [PNum 29, PNum 30])]
       = Inr ''http://h/api/content/byids/29/30''"
proof -
  have c: "classify [(''ids'', Arr [PNum 29, PNum 30])] = Some Ids"
    by (simp add: classify_cases present_def)
  have g: "Get [(''ids'', Arr [PNum 29, PNum 30])] ''ids'' = Arr (map PNum [29, 30])"
    by (simp add: Get_def)
  have s: "\<forall>n\<in>set [29, 30]. isSafeInteger n"
    by (simp add: isSafeInteger_def)
  have r: "requestToUrl (Client ''http://h'' None) [(''ids'', Arr [PNum 29, PNum 30])]
       = Inr (apiUrl (Client ''http://h'' None) @ ''byids/'' @ separated ''/'' (map Number_toString [29, 30]))"
    using requestToUrl_path [of "[(''ids'', Arr [PNum 29, PNum 30])]" "[29, 30]" "Client ''http://h'' None",
        THEN conjunct1] c g s by blast
  have n: "Number_toString 29 = ''29''" "Number_toString 30 = ''30''"
    by (simp_all add: Number_toString_def digits_29 digits_30)
  have "requestToUrl (Client ''http://h'' None) [(''ids'', Arr [PNum 29, PNum 30])]
       = Inr ''http://h/api/content/byids/29/30''"
    by (simp add: r n apiUrl_Client_h)
  moreover have "isSafeInteger 29" "isSafeInteger 30"
    by (simp_all add: isSafeInteger_def)
  ultimately show ?thesis using c g apiUrl_Client_h by blast
qed


lemma requestKind_results:
  "requestKind q = Inl classification_error \<or> requestKind q = Inr ''ids''
   \<or> requestKind q = Inr ''names'' \<or> requestKind q = Inr ''tags''"
  by (simp add: requestKind_def classification_error_def)

lemma call_join_error: "call_join v sep = Inl e \<Longrightarrow> e = TypeError"
  by (cases v) (simp_all add: call_join_def)

lemma requestToUrl_errors:
  "requestToUrl c q = Inl e \<Longrightarrow> e = classification_error \<or> e = TypeError"
  using requestKind_results [of q]
  by (auto simp: requestToUrl_def split: sum.splits dest: call_join_error)

lemma requestToUrl_propagates: "requestKind q = Inl e \<Longrightarrow> requestToUrl c q = Inl e"
  by (simp add: requestToUrl_def)

lemma classify_None: "present_count q \<noteq> 1 \<Longrightarrow> classify q = None"
  by (simp add: classify_def)

lemma get_valid_query_fetches:
  assumes "requestToUrl c q = Inr url"
  shows "\<exists>p call. get c q w = (Inr p, snd (get c q w))
     \<and> network (snd (get c q w)) = network w @ [call] \<and> fetch_url call = url"
  using assms
  by (simp add: get_def blackstarFetch_def Let_def split: option.splits)

text \<open>
  Claim C3. For a query in which not exactly one of ids, names, tags is present,
  \<open>requestToUrl\<close> fails with the classification error of \<open>requestKind\<close> and with no
  other: an error of the classifier is passed on as it is, the error of the default branch
  of the switch is never the result, and \<open>get\<close> fails before it calls the transport, the
  world left as it was.
\<close>

theorem invalid_query_fails_before_transport:
  "(present_count q \<noteq> 1 \<longrightarrow>
      requestKind q = Inl classification_error
      \<and> requestToUrl c q = Inl classification_error
      \<and> get c q w = (Inl classification_error, w))
   \<and> (\<forall>e. requestKind q = Inl e \<longrightarrow> requestToUrl c q = Inl e)
   \<and> (\<forall>k. requestToUrl c q \<noteq> Inl (Error (''Unknown request kind: '' @ k)))"
proof (intro conjI impI allI)
  assume a: "present_count q \<noteq> 1"
  then show k: "requestKind q = Inl classification_error"
    by (simp add: requestKind_classify classify_None)
  then show u: "requestToUrl c q = Inl classification_error"
    by (rule requestToUrl_propagates)
  then show "get c q w = (Inl classification_error, w)"
    by (simp add: get_def)
next
  fix e assume "requestKind q = Inl e"
  then show "requestToUrl c q = Inl e" by (rule requestToUrl_propagates)
next
  fix k
  show "requestToUrl c q \<noteq> Inl (Error (''Unknown request kind: '' @ k))"
  proof
    assume "requestToUrl c q = Inl (Error (''Unknown request kind: '' @ k))"
    then have "Error (''Unknown request kind: '' @ k) = classification_error
        \<or> Error (''Unknown request kind: '' @ k) = TypeError"
      by (rule requestToUrl_errors)
    then show False by (simp add: classification_error_def)
  qed
qed

theorem invalid_query_fails_before_transport_witness:
  "present_count [(''ids'', Arr [PNum 1, PNum 2]), (''tags'', Arr [PStr ''a''])] \<noteq> 1
   \<and> get (Client ''http://h'' None) [(''ids'', Arr [PNum 1, PNum 2]), (''tags'', Arr [PStr ''a''])]
         \<lparr>network = [], document_cookie = []\<rparr>
       = (Inl classification_error, \<lparr>network = [], document_cookie = []\<rparr>)
   \<and> present_count [] \<noteq> 1
   \<and> requestToUrl (Client ''http://h'' None) [] = Inl classification_error"
proof -
  have a: "present_count [(''ids'', Arr [PNum 1, PNum 2]), (''tags'', Arr [PStr ''a''])] \<noteq> 1"
    by (simp add: present_count_def recognized_keys_def present_def)
  have b: "present_count [] \<noteq> 1"
    by (simp add: present_count_def recognized_keys_def present_def)
  note t1 = invalid_query_fails_before_transport
      [of "[(''ids'', Arr [PNum 1, PNum 2]), (''tags'', Arr [PStr ''a''])]"
          "Client ''http://h'' None" "\<lparr>network = [], document_cookie = []\<rparr>", THEN conjunct1, rule_format, OF a]
  note t2 = invalid_query_fails_before_transport
      [of "[]" "Client ''http://h'' None" "\<lparr>network = [], document_cookie = []\<rparr>", THEN conjunct1, rule_format, OF b]
  show ?thesis
    by (intro conjI) (rule a b t1 [THEN conjunct2, THEN conjunct2] t2 [THEN conjunct2, THEN conjunct1])+
qed

text \<open>
  Claim C4. For a query whose one recognised key holds the empty array, \<open>requestToUrl\<close>
  succeeds and the URL ends with the segment of the kind: the join of no elements is the
  empty string.
\<close>

theorem requestToUrl_empty_array:
  assumes "classify q = Some k" and "Get q (kind_key k) = Arr []"
  shows "requestToUrl c q = Inr (apiUrl c @ mode_segment k) \<and> Array_join ''/'' [] = []"
  using assms by (simp add: requestToUrl_classified call_join_def Array_join_def)

theorem requestToUrl_empty_array_witness:
  "classify [(''ids'', Arr [])] = Some Ids
   \<and> Get [(''ids'', Arr [])] (kind_key Ids) = Arr []
   \<and> requestToUrl (Client ''http://h'' None) [(''ids'', Arr [])] = Inr ''http://h/api/content/byids/''
   \<and> classify [(''names'', Arr []), (''limit'', Prim (PNum 5))] = Some Names
   \<and> requestToUrl (Client ''http://h'' None) [(''names'', Arr []), (''limit'', Prim (PNum 5))]
        = Inr ''http://h/api/content/bynames/''
   \<and> classify [(''tags'', Arr [])] = Some Tags
   \<and> requestToUrl (Client ''http://h'' None) [(''tags'', Arr [])] = Inr ''http://h/api/content/bytags/''"
proof -
  have c1: "classify [(''ids'', Arr [])] = Some Ids"
    and c2: "classify [(''names'', Arr []), (''limit'', Prim (PNum 5))] = Some Names"
    and c3: "classify [(''tags'', Arr [])] = Some Tags"
    by (simp_all add: classify_cases present_def)
  have g1: "Get [(''ids'', Arr [])] (kind_key Ids) = Arr []"
    and g2: "Get [(''names'', Arr []), (''limit'', Prim (PNum 5))] (kind_key Names) = Arr []"
    and g3: "Get [(''tags'', Arr [])] (kind_key Tags) = Arr []"
    by (simp_all add: Get_def)
  have r1: "requestToUrl (Client ''http://h'' None) [(''ids'', Arr [])] = Inr ''http://h/api/content/byids/''"
    using requestToUrl_empty_array [OF c1 g1, of "Client ''http://h'' None"]
    by (simp add: apiUrl_Client_h)
  have r2: "requestToUrl (Client ''http://h'' None) [(''names'', Arr []), (''limit'', Prim (PNum 5))]
        = Inr ''http://h/api/content/bynames/''"
    using requestToUrl_empty_array [OF c2 g2, of "Client ''http://h'' None"]
    by (simp add: apiUrl_Client_h)
  have r3: "requestToUrl (Client ''http://h'' None) [(''tags'', Arr [])] = Inr ''http://h/api/content/bytags/''"
    using requestToUrl_empty_array [OF c3 g3, of "Client ''http://h'' None"]
    by (simp add: apiUrl_Client_h)
  show ?thesis
    by (intro conjI) (rule c1 c2 c3 g1 r1 r2 r3)+
qed


section \<open>Enrichment of a collection\<close>

lemma enrich_Some:
  "h data = Some arr \<Longrightarrow>
   enrichCollectionWithByMethods h data =
     Inr (h(data \<mapsto> arr\<lparr>byName := Some (ByName data), byId := Some (ById data),
                          byTag := Some (ByTag data)\<rparr>), data)"
  by (simp add: enrichCollectionWithByMethods_def)

lemma enrich_Inr:
  assumes "enrichCollectionWithByMethods h data = Inr (h', r)"
  shows "r = data \<and> (\<exists>arr. h data = Some arr \<and>
     h' = h(data \<mapsto> arr\<lparr>byName := Some (ByName data), byId := Some (ById data),
                          byTag := Some (ByTag data)\<rparr>))"
  using assms by (auto simp: enrichCollectionWithByMethods_def split: option.splits)

lemma enriched_members:
  assumes "enrichCollectionWithByMethods h data = Inr (h', r)" and "h' r = Some arr'"
  shows "byName arr' = Some (ByName r) \<and> byId arr' = Some (ById r) \<and> byTag arr' = Some (ByTag r)"
  using enrich_Inr [OF assms(1)] assms(2) by auto

lemma call_byId_member:
  "h a = Some arr \<Longrightarrow> byId arr = Some (ById a) \<Longrightarrow>
   call_byId h a v = Inr (Item (Array_find (\<lambda>item. strict_equals (chunk_id item) v) (elems arr)))"
  by (simp add: call_byId_def call_member_def)

lemma call_byName_member:
  "h a = Some arr \<Longrightarrow> byName arr = Some (ByName a) \<Longrightarrow>
   call_byName h a v = Inr (Item (Array_find (\<lambda>item. strict_equals (chunk_name item) v) (elems arr)))"
  by (simp add: call_byName_def call_member_def)

lemma call_byTag_member:
  "h a = Some arr \<Longrightarrow> byTag arr = Some (ByTag a) \<Longrightarrow>
   call_byTag h a v =
     (case Array_filter (has_tag v) (elems arr) of Inl e \<Rightarrow> Inl e | Inr kept \<Rightarrow> Inr (Items kept))"
  by (simp add: call_byTag_def call_member_def)

lemma Array_find_Some_iff:
  "Array_find p xs = Some c \<longleftrightarrow> (\<exists>i<length xs. xs ! i = c \<and> p c \<and> (\<forall>j<i. \<not> p (xs ! j)))"
  by (auto simp: Array_find_find find_Some_iff)

lemma Array_find_None_iff: "Array_find p xs = None \<longleftrightarrow> (\<forall>c\<in>set xs. \<not> p c)"
  by (auto simp: Array_find_find find_None_iff)

lemma has_tag_Arr: "chunk_tags c = Arr ts \<Longrightarrow> has_tag tag c = Inr (tag \<in> set (tags_of c))"
  by (auto simp: has_tag_def tags_of_def Array_some_iff strict_equals_iff)

lemma Array_filter_total:
  "(\<forall>x\<in>set xs. p x = Inr (q x)) \<Longrightarrow> Array_filter p xs = Inr (filter q xs)"
  by (induction xs) simp_all

lemma Array_filter_tags:
  assumes "\<forall>c\<in>set xs. \<exists>ts. chunk_tags c = Arr ts"
  shows "Array_filter (has_tag tag) xs = Inr (filter (\<lambda>c. tag \<in> set (tags_of c)) xs)"
proof (rule Array_filter_total)
  show "\<forall>x\<in>set xs. has_tag tag x = Inr (tag \<in> set (tags_of x))"
    using assms has_tag_Arr by blast
qed

lemma byTag_throws_without_tags:
  "h a = Some arr \<Longrightarrow> byTag arr = Some (ByTag a) \<Longrightarrow> elems arr = c # cs \<Longrightarrow>
   chunk_tags c = Prim p \<Longrightarrow> call_byTag h a tag = Inl TypeError"
  by (simp add: call_byTag_member has_tag_def)

lemma Array_filter_sound:
  "Array_filter (has_tag tag) xs = Inr kept \<Longrightarrow> \<forall>c\<in>set kept. c \<in> set xs \<and> tag \<in> set (tags_of c)"
proof (induction xs arbitrary: kept)
  case Nil
  then show ?case by simp
next
  case (Cons x xs)
  then show ?case
    by (auto simp: has_tag_def tags_of_def Array_some_iff strict_equals_iff
        split: sum.splits jsval.splits if_splits)
qed


lemma results_value:
  "results = Inr (parsed(0 \<mapsto> \<lparr>elems = [chunk6, chunk7, chunk8, chunk9],
       byName = Some (ByName 0), byId = Some (ById 0), byTag = Some (ByTag 0)\<rparr>), 0)"
  by (simp add: results_def parsed_def enrichCollectionWithByMethods_def)

lemma results_enriched:
  obtains h' arr' where "enrichCollectionWithByMethods parsed 0 = Inr (h', 0)"
    and "results = Inr (h', 0)" and "h' 0 = Some arr'"
    and "elems arr' = [chunk6, chunk7, chunk8, chunk9]"
proof -
  define arr' where "arr' = \<lparr>elems = [chunk6, chunk7, chunk8, chunk9],
       byName = Some (ByName 0), byId = Some (ById 0), byTag = Some (ByTag 0)\<rparr>"
  define h' where "h' = parsed(0 \<mapsto> arr')"
  have r: "results = Inr (h', 0)" by (simp add: results_value h'_def arr'_def)
  then have "enrichCollectionWithByMethods parsed 0 = Inr (h', 0)"
    by (simp add: results_def)
  moreover note r
  moreover have "h' 0 = Some arr'" by (simp add: h'_def)
  moreover have "elems arr' = [chunk6, chunk7, chunk8, chunk9]" by (simp add: arr'_def)
  ultimately show thesis by (rule that)
qed

lemma example_ids:
  "chunk_id chunk6 = PNum 6" "chunk_id chunk7 = PNum 7" "chunk_id chunk8 = PNum 8"
  "chunk_id chunk9 = PNum 9"
  by (simp_all add: chunk6_def chunk7_def chunk8_def chunk9_def)

lemma example_names:
  "chunk_name chunk6 = PStr ''index-heading''" "chunk_name chunk7 = PStr ''index-title''"
  "chunk_name chunk8 = PStr ''index-content''" "chunk_name chunk9 = PStr ''index-footer''"
  by (simp_all add: chunk6_def chunk7_def chunk8_def chunk9_def)

lemma example_tags:
  "chunk_tags chunk6 = Arr [PStr ''index-page'']" "chunk_tags chunk7 = Arr [PStr ''index-page'']"
  "chunk_tags chunk8 = Arr [PStr ''index-page'']" "chunk_tags chunk9 = Arr [PStr ''index-page'']"
  by (simp_all add: chunk6_def chunk7_def chunk8_def chunk9_def)

text \<open>
  Claim C5. On every array of chunks, the empty one included, enrichment succeeds and
  returns the address it was given: the same array, its elements as before, its members
  byName, byId and byTag now the three lookups closed over this very array, and no new
  object in the heap. Each member scans the elements of the array for its argument.
  Enriching the result once more leaves the array as it is and changes nothing in what the
  three members return, whatever the argument.
\<close>

theorem enrich_same_instance_idempotent:
  assumes "h data = Some arr"
  shows "\<exists>h1 h2. enrichCollectionWithByMethods h data = Inr (h1, data)
      \<and> enrichCollectionWithByMethods h1 data = Inr (h2, data)
      \<and> dom h1 = dom h \<and> dom h2 = dom h
      \<and> h1 data = Some (arr\<lparr>byName := Some (ByName data), byId := Some (ById data),
                               byTag := Some (ByTag data)\<rparr>)
      \<and> h2 data = h1 data
      \<and> (\<exists>arr1. h1 data = Some arr1 \<and> elems arr1 = elems arr
            \<and> byName arr1 \<noteq> None \<and> byId arr1 \<noteq> None \<and> byTag arr1 \<noteq> None)
      \<and> (\<forall>v. call_byId h1 data v =
            Inr (Item (Array_find (\<lambda>item. strict_equals (chunk_id item) v) (elems arr))))
      \<and> (\<forall>v. call_byName h1 data v =
            Inr (Item (Array_find (\<lambda>item. strict_equals (chunk_name item) v) (elems arr))))
      \<and> (\<forall>v. call_byTag h1 data v =
            (case Array_filter (has_tag v) (elems arr) of
               Inl e \<Rightarrow> Inl e | Inr kept \<Rightarrow> Inr (Items kept)))
      \<and> (\<forall>v. call_byId h2 data v = call_byId h1 data v)
      \<and> (\<forall>v. call_byName h2 data v = call_byName h1 data v)
      \<and> (\<forall>v. call_byTag h2 data v = call_byTag h1 data v)"
proof -
  define arr1 :: array_obj where
    "arr1 = arr\<lparr>byName := Some (ByName data), byId := Some (ById data),
                          byTag := Some (ByTag data)\<rparr>"
  define h1 :: heap where "h1 = h(data \<mapsto> arr1)"
  have e1: "enrichCollectionWithByMethods h data = Inr (h1, data)"
    using assms by (simp add: enrich_Some h1_def arr1_def)
  have a1: "h1 data = Some arr1" by (simp add: h1_def)
  have "arr1\<lparr>byName := Some (ByName data), byId := Some (ById data),
                          byTag := Some (ByTag data)\<rparr> = arr1"
    by (simp add: arr1_def)
  then have e2: "enrichCollectionWithByMethods h1 data = Inr (h1, data)"
    using enrich_Some [of h1 data arr1, OF a1] by (simp add: h1_def)
  have d: "dom h1 = dom h"
    using assms by (auto simp: h1_def)
  have p: "h1 data = Some (arr\<lparr>byName := Some (ByName data), byId := Some (ById data),
                               byTag := Some (ByTag data)\<rparr>)"
    by (simp add: a1 arr1_def)
  have m: "elems arr1 = elems arr" "byName arr1 = Some (ByName data)"
    "byId arr1 = Some (ById data)" "byTag arr1 = Some (ByTag data)"
    by (simp_all add: arr1_def)
  have m': "elems arr1 = elems arr \<and> byName arr1 \<noteq> None \<and> byId arr1 \<noteq> None \<and> byTag arr1 \<noteq> None"
    by (simp add: m)
  have i: "\<forall>v. call_byId h1 data v =
            Inr (Item (Array_find (\<lambda>item. strict_equals (chunk_id item) v) (elems arr)))"
    using a1 m by (simp add: call_byId_member)
  have n: "\<forall>v. call_byName h1 data v =
            Inr (Item (Array_find (\<lambda>item. strict_equals (chunk_name item) v) (elems arr)))"
    using a1 m by (simp add: call_byName_member)
  have t: "\<forall>v. call_byTag h1 data v =
            (case Array_filter (has_tag v) (elems arr) of
               Inl e \<Rightarrow> Inl e | Inr kept \<Rightarrow> Inr (Items kept))"
    using a1 m by (simp add: call_byTag_member)
  from e1 e2 d p a1 m' i n t show ?thesis by blast
qed

theorem enrich_same_instance_idempotent_witness:
  "parsed 0 = Some \<lparr>elems = [chunk6, chunk7, chunk8, chunk9],
                    byName = None, byId = None, byTag = None\<rparr>
   \<and> (\<exists>h1 h2. enrichCollectionWithByMethods parsed 0 = Inr (h1, 0)
      \<and> enrichCollectionWithByMethods h1 0 = Inr (h2, 0)
      \<and> call_byId h1 0 (PNum 8) = Inr (Item (Some chunk8))
      \<and> call_byId h2 0 (PNum 8) = Inr (Item (Some chunk8))
      \<and> call_byName h1 0 (PStr ''index-heading'') = Inr (Item (Some chunk6))
      \<and> call_byName h2 0 (PStr ''index-heading'') = Inr (Item (Some chunk6))
      \<and> call_byTag h1 0 (PStr ''index-page'') = Inr (Items [chunk6, chunk7, chunk8, chunk9])
      \<and> call_byTag h2 0 (PStr ''index-page'') = Inr (Items [chunk6, chunk7, chunk8, chunk9]))
   \<and> [7 \<mapsto> \<lparr>elems = [], byName = None, byId = None, byTag = None\<rparr>] (7::nat)
      = Some \<lparr>elems = [], byName = None, byId = None, byTag = None\<rparr>
   \<and> (\<exists>h1 h2. enrichCollectionWithByMethods
        [7 \<mapsto> \<lparr>elems = [], byName = None, byId = None, byTag = None\<rparr>] 7 = Inr (h1, 7)
      \<and> enrichCollectionWithByMethods h1 7 = Inr (h2, 7)
      \<and> call_byId h2 7 (PNum 8) = Inr (Item None)
      \<and> call_byName h2 7 (PStr ''index-heading'') = Inr (Item None)
      \<and> call_byTag h2 7 (PStr ''index-page'') = Inr (Items []))"
proof -
  have a: "parsed 0 = Some \<lparr>elems = [chunk6, chunk7, chunk8, chunk9],
                    byName = None, byId = None, byTag = None\<rparr>"
    by (simp add: parsed_def)
  obtain h1 h2 where e: "enrichCollectionWithByMethods parsed 0 = Inr (h1, 0)"
      "enrichCollectionWithByMethods h1 0 = Inr (h2, 0)"
    and i: "\<forall>v. call_byId h1 0 v =
        Inr (Item (Array_find (\<lambda>item. strict_equals (chunk_id item) v)
          [chunk6, chunk7, chunk8, chunk9]))"
    and n: "\<forall>v. call_byName h1 0 v =
        Inr (Item (Array_find (\<lambda>item. strict_equals (chunk_name item) v)
          [chunk6, chunk7, chunk8, chunk9]))"
    and t: "\<forall>v. call_byTag h1 0 v =
        (case Array_filter (has_tag v) [chunk6, chunk7, chunk8, chunk9] of
           Inl e \<Rightarrow> Inl e | Inr kept \<Rightarrow> Inr (Items kept))"
    and s: "\<forall>v. call_byId h2 0 v = call_byId h1 0 v"
      "\<forall>v. call_byName h2 0 v = call_byName h1 0 v"
      "\<forall>v. call_byTag h2 0 v = call_byTag h1 0 v"
    using enrich_same_instance_idempotent [of parsed 0
        "\<lparr>elems = [chunk6, chunk7, chunk8, chunk9], byName = None, byId = None, byTag = None\<rparr>",
        OF a]
    by auto
  have 1: "call_byId h1 0 (PNum 8) = Inr (Item (Some chunk8))"
    by (simp add: i example_ids)
  have 2: "call_byName h1 0 (PStr ''index-heading'') = Inr (Item (Some chunk6))"
    by (simp add: n example_names)
  have 3: "call_byTag h1 0 (PStr ''index-page'') = Inr (Items [chunk6, chunk7, chunk8, chunk9])"
    by (simp add: t has_tag_def example_tags)
  have full: "\<exists>h1 h2. enrichCollectionWithByMethods parsed 0 = Inr (h1, 0)
      \<and> enrichCollectionWithByMethods h1 0 = Inr (h2, 0)
      \<and> call_byId h1 0 (PNum 8) = Inr (Item (Some chunk8))
      \<and> call_byId h2 0 (PNum 8) = Inr (Item (Some chunk8))
      \<and> call_byName h1 0 (PStr ''index-heading'') = Inr (Item (Some chunk6))
      \<and> call_byName h2 0 (PStr ''index-heading'') = Inr (Item (Some chunk6))
      \<and> call_byTag h1 0 (PStr ''index-page'') = Inr (Items [chunk6, chunk7, chunk8, chunk9])
      \<and> call_byTag h2 0 (PStr ''index-page'') = Inr (Items [chunk6, chunk7, chunk8, chunk9])"
    using e 1 2 3 s by metis
  have b: "[7 \<mapsto> \<lparr>elems = [], byName = None, byId = None, byTag = None\<rparr>] (7::nat)
      = Some \<lparr>elems = [], byName = None, byId = None, byTag = None\<rparr>"
    by simp
  obtain g1 g2 where f: "enrichCollectionWithByMethods
        [7 \<mapsto> \<lparr>elems = [], byName = None, byId = None, byTag = None\<rparr>] 7 = Inr (g1, 7)"
      "enrichCollectionWithByMethods g1 7 = Inr (g2, 7)"
    and i': "\<forall>v. call_byId g1 7 v =
        Inr (Item (Array_find (\<lambda>item. strict_equals (chunk_id item) v) []))"
    and n': "\<forall>v. call_byName g1 7 v =
        Inr (Item (Array_find (\<lambda>item. strict_equals (chunk_name item) v) []))"
    and t': "\<forall>v. call_byTag g1 7 v =
        (case Array_filter (has_tag v) [] of
           Inl e \<Rightarrow> Inl e | Inr kept \<Rightarrow> Inr (Items kept))"
    and s': "\<forall>v. call_byId g2 7 v = call_byId g1 7 v"
      "\<forall>v. call_byName g2 7 v = call_byName g1 7 v"
      "\<forall>v. call_byTag g2 7 v = call_byTag g1 7 v"
    using enrich_same_instance_idempotent
      [of "[7 \<mapsto> \<lparr>elems = [], byName = None, byId = None, byTag = None\<rparr>]" 7
        "\<lparr>elems = [], byName = None, byId = None, byTag = None\<rparr>", OF b]
    by auto
  have 4: "call_byId g2 7 (PNum 8) = Inr (Item None)"
    by (simp add: s' i')
  have 5: "call_byName g2 7 (PStr ''index-heading'') = Inr (Item None)"
    by (simp add: s' n')
  have 6: "call_byTag g2 7 (PStr ''index-page'') = Inr (Items [])"
    by (simp add: s' t')
  have empty: "\<exists>h1 h2. enrichCollectionWithByMethods
        [7 \<mapsto> \<lparr>elems = [], byName = None, byId = None, byTag = None\<rparr>] 7 = Inr (h1, 7)
      \<and> enrichCollectionWithByMethods h1 7 = Inr (h2, 7)
      \<and> call_byId h2 7 (PNum 8) = Inr (Item None)
      \<and> call_byName h2 7 (PStr ''index-heading'') = Inr (Item None)
      \<and> call_byTag h2 7 (PStr ''index-page'') = Inr (Items [])"
    using f 4 5 6 by blast
  show ?thesis
    by (intro conjI) (rule a full b empty)+
qed

text \<open>
  Claim C6. On an enriched array, \<open>byId\<close> returns the chunk at the least index whose id
  is the argument, and \<^verbatim>\<open>undefined\<close> when no chunk has that id; it never throws.
  \<open>byName\<close> does the same over the names. On the collection of the test suite, byId(8) is
  the chunk named index-content, byId(99) is \<^verbatim>\<open>undefined\<close>, and byName('index-heading')
  is the chunk with id 6.
\<close>

theorem byId_byName_first_match:
  assumes "enrichCollectionWithByMethods h data = Inr (h', r)" and "h' r = Some arr'"
  shows "(call_byId h' r v = Inr (Item (Some c)) \<longleftrightarrow>
           (\<exists>i<length (elems arr'). elems arr' ! i = c \<and> chunk_id c = v
              \<and> (\<forall>j<i. chunk_id (elems arr' ! j) \<noteq> v)))
      \<and> (call_byId h' r v = Inr (Item None) \<longleftrightarrow> (\<forall>c\<in>set (elems arr'). chunk_id c \<noteq> v))
      \<and> (\<exists>found. call_byId h' r v = Inr (Item found))
      \<and> (call_byName h' r v = Inr (Item (Some c)) \<longleftrightarrow>
           (\<exists>i<length (elems arr'). elems arr' ! i = c \<and> chunk_name c = v
              \<and> (\<forall>j<i. chunk_name (elems arr' ! j) \<noteq> v)))
      \<and> (call_byName h' r v = Inr (Item None) \<longleftrightarrow> (\<forall>c\<in>set (elems arr'). chunk_name c \<noteq> v))
      \<and> (\<exists>found. call_byName h' r v = Inr (Item found))"
proof -
  note m = enriched_members [OF assms]
  have i: "call_byId h' r v =
      Inr (Item (Array_find (\<lambda>item. strict_equals (chunk_id item) v) (elems arr')))"
    using assms(2) m by (simp add: call_byId_member)
  have n: "call_byName h' r v =
      Inr (Item (Array_find (\<lambda>item. strict_equals (chunk_name item) v) (elems arr')))"
    using assms(2) m by (simp add: call_byName_member)
  show ?thesis
    by (simp add: i n Array_find_Some_iff Array_find_None_iff strict_equals_iff)
qed


theorem byId_byName_first_match_witness:
  "\<exists>h'. results = Inr (h', 0)
     \<and> call_byId h' 0 (PNum 8) = Inr (Item (Some chunk8))
     \<and> chunk_name chunk8 = PStr ''index-content''
     \<and> call_byId h' 0 (PNum 99) = Inr (Item None)
     \<and> call_byName h' 0 (PStr ''index-heading'') = Inr (Item (Some chunk6))
     \<and> chunk_id chunk6 = PNum 6"
proof -
  obtain h' arr' where e: "enrichCollectionWithByMethods parsed 0 = Inr (h', 0)"
    and r: "results = Inr (h', 0)" and a: "h' 0 = Some arr'"
    and xs: "elems arr' = [chunk6, chunk7, chunk8, chunk9]"
    by (rule results_enriched)
  have "\<exists>i<length (elems arr'). elems arr' ! i = chunk8 \<and> chunk_id chunk8 = PNum 8
              \<and> (\<forall>j<i. chunk_id (elems arr' ! j) \<noteq> PNum 8)"
    by (rule exI [of _ 2]) (simp add: xs example_ids less_2_cases_iff)
  then have 1: "call_byId h' 0 (PNum 8) = Inr (Item (Some chunk8))"
    using byId_byName_first_match [OF e a, of "PNum 8" chunk8] by blast
  have "\<forall>c\<in>set (elems arr'). chunk_id c \<noteq> PNum 99"
    by (simp add: xs example_ids)
  then have 2: "call_byId h' 0 (PNum 99) = Inr (Item None)"
    using byId_byName_first_match [OF e a, of "PNum 99" chunk8] by blast
  have "\<exists>i<length (elems arr'). elems arr' ! i = chunk6 \<and> chunk_name chunk6 = PStr ''index-heading''
              \<and> (\<forall>j<i. chunk_name (elems arr' ! j) \<noteq> PStr ''index-heading'')"
    by (rule exI [of _ 0]) (simp add: xs example_names)
  then have 3: "call_byName h' 0 (PStr ''index-heading'') = Inr (Item (Some chunk6))"
    using byId_byName_first_match [OF e a, of "PStr ''index-heading''" chunk6] by blast
  from r 1 2 3 example_ids(1) example_names(3) show ?thesis by blast
qed

text \<open>
  Claim C7. On an enriched array whose chunks all hold an array of tags, \<open>byTag\<close> does not
  throw and returns an array: the chunks whose tags contain the argument, in the order of
  the collection, and the empty array when there is none, never \<^verbatim>\<open>undefined\<close>.
  \<open>byId\<close> and \<open>byName\<close> return \<^verbatim>\<open>undefined\<close> when nothing matches.
\<close>

theorem byTag_all_matches:
  assumes "enrichCollectionWithByMethods h data = Inr (h', r)" and "h' r = Some arr'"
    and "\<forall>c\<in>set (elems arr'). \<exists>ts. chunk_tags c = Arr ts"
  shows "call_byTag h' r tag = Inr (Items (filter (\<lambda>c. tag \<in> set (tags_of c)) (elems arr')))
     \<and> ((\<forall>c\<in>set (elems arr'). tag \<notin> set (tags_of c)) \<longrightarrow> call_byTag h' r tag = Inr (Items []))
     \<and> call_byTag h' r tag \<noteq> Inr (Item None)
     \<and> ((\<forall>c\<in>set (elems arr'). chunk_id c \<noteq> v) \<longrightarrow> call_byId h' r v = Inr (Item None))
     \<and> ((\<forall>c\<in>set (elems arr'). chunk_name c \<noteq> v) \<longrightarrow> call_byName h' r v = Inr (Item None))"
proof -
  note m = enriched_members [OF assms(1,2)]
  have t: "call_byTag h' r tag = Inr (Items (filter (\<lambda>c. tag \<in> set (tags_of c)) (elems arr')))"
    using assms(2) m by (simp add: call_byTag_member Array_filter_tags [OF assms(3)])
  have e: "(\<forall>c\<in>set (elems arr'). tag \<notin> set (tags_of c)) \<longrightarrow> call_byTag h' r tag = Inr (Items [])"
    by (simp add: t filter_empty_conv)
  have i: "(\<forall>c\<in>set (elems arr'). chunk_id c \<noteq> v) \<longrightarrow> call_byId h' r v = Inr (Item None)"
    using assms(2) m by (simp add: call_byId_member Array_find_None_iff strict_equals_iff)
  have n: "(\<forall>c\<in>set (elems arr'). chunk_name c \<noteq> v) \<longrightarrow> call_byName h' r v = Inr (Item None)"
    using assms(2) m by (simp add: call_byName_member Array_find_None_iff strict_equals_iff)
  have d: "call_byTag h' r tag \<noteq> Inr (Item None)" by (simp add: t)
  from t e d i n show ?thesis by blast
qed

theorem byTag_all_matches_witness:
  "\<exists>h' arr'. results = Inr (h', 0) \<and> h' 0 = Some arr'
     \<and> (\<forall>c\<in>set (elems arr'). \<exists>ts. chunk_tags c = Arr ts)
     \<and> call_byTag h' 0 (PStr ''index-page'') = Inr (Items [chunk6, chunk7, chunk8, chunk9])
     \<and> call_byTag h' 0 (PStr ''not a real tag'') = Inr (Items [])
     \<and> call_byName h' 0 (PStr ''index-aweriu'') = Inr (Item None)"
proof -
  obtain h' arr' where e: "enrichCollectionWithByMethods parsed 0 = Inr (h', 0)"
    and r: "results = Inr (h', 0)" and a: "h' 0 = Some arr'"
    and xs: "elems arr' = [chunk6, chunk7, chunk8, chunk9]"
    by (rule results_enriched)
  have t: "\<forall>c\<in>set (elems arr'). \<exists>ts. chunk_tags c = Arr ts"
    by (simp add: xs example_tags)
  have 1: "call_byTag h' 0 (PStr ''index-page'') = Inr (Items [chunk6, chunk7, chunk8, chunk9])"
    using byTag_all_matches [OF e a t, of "PStr ''index-page''", THEN conjunct1]
    by (simp add: xs tags_of_def example_tags)
  have 2: "call_byTag h' 0 (PStr ''not a real tag'') = Inr (Items [])"
    using byTag_all_matches [OF e a t, of "PStr ''not a real tag''", THEN conjunct1]
    by (simp add: xs tags_of_def example_tags)
  have "\<forall>c\<in>set (elems arr'). chunk_name c \<noteq> PStr ''index-aweriu''"
    by (simp add: xs example_names)
  then have 3: "call_byName h' 0 (PStr ''index-aweriu'') = Inr (Item None)"
    using byTag_all_matches [OF e a t, where v = "PStr ''index-aweriu''"] by blast
  from r a t 1 2 3 show ?thesis by blast
qed


text \<open>
  Claim C8. Enrichment changes nothing but the three members of the array it is given:
  the elements of that array stay as they were, in their order, every other object of the
  heap is untouched, and the address returned is the one passed in. The members keep the
  address, not the elements: called in a later heap, they scan what the array holds then.
\<close>

theorem enrich_frame_and_views:
  assumes "enrichCollectionWithByMethods h data = Inr (h', r)"
  shows "r = data
     \<and> (\<forall>a. a \<noteq> data \<longrightarrow> h' a = h a)
     \<and> (\<exists>arr. h data = Some arr
           \<and> h' data = Some (arr\<lparr>byName := Some (ByName data), byId := Some (ById data),
                                    byTag := Some (ByTag data)\<rparr>))
     \<and> (\<forall>arr arr'. h data = Some arr \<and> h' data = Some arr' \<longrightarrow> elems arr' = elems arr)
     \<and> (\<forall>h2 arr' arr2 v.
           h' data = Some arr' \<and> h2 data = Some arr2 \<and> byName arr2 = byName arr'
           \<and> byId arr2 = byId arr' \<and> byTag arr2 = byTag arr' \<longrightarrow>
             call_byId h2 data v =
               Inr (Item (Array_find (\<lambda>item. strict_equals (chunk_id item) v) (elems arr2)))
           \<and> call_byName h2 data v =
               Inr (Item (Array_find (\<lambda>item. strict_equals (chunk_name item) v) (elems arr2)))
           \<and> call_byTag h2 data v =
               (case Array_filter (has_tag v) (elems arr2) of
                  Inl e \<Rightarrow> Inl e | Inr kept \<Rightarrow> Inr (Items kept)))"
proof -
  from enrich_Inr [OF assms] obtain arr where r: "r = data" and a: "h data = Some arr"
    and h': "h' = h(data \<mapsto> arr\<lparr>byName := Some (ByName data), byId := Some (ById data),
                          byTag := Some (ByTag data)\<rparr>)"
    by blast
  have 2: "\<forall>a. a \<noteq> data \<longrightarrow> h' a = h a" by (simp add: h')
  have 3: "\<exists>arr. h data = Some arr
           \<and> h' data = Some (arr\<lparr>byName := Some (ByName data), byId := Some (ById data),
                                    byTag := Some (ByTag data)\<rparr>)"
    using a by (simp add: h')
  have 4: "\<forall>arr arr'. h data = Some arr \<and> h' data = Some arr' \<longrightarrow> elems arr' = elems arr"
    using a by (auto simp: h')
  have 5: "\<forall>h2 arr' arr2 v.
           h' data = Some arr' \<and> h2 data = Some arr2 \<and> byName arr2 = byName arr'
           \<and> byId arr2 = byId arr' \<and> byTag arr2 = byTag arr' \<longrightarrow>
             call_byId h2 data v =
               Inr (Item (Array_find (\<lambda>item. strict_equals (chunk_id item) v) (elems arr2)))
           \<and> call_byName h2 data v =
               Inr (Item (Array_find (\<lambda>item. strict_equals (chunk_name item) v) (elems arr2)))
           \<and> call_byTag h2 data v =
               (case Array_filter (has_tag v) (elems arr2) of
                  Inl e \<Rightarrow> Inl e | Inr kept \<Rightarrow> Inr (Items kept))"
  proof (intro allI impI)
    fix arr' arr2 :: array_obj and h2 :: heap and v :: prim
    assume p: "h' data = Some arr' \<and> h2 data = Some arr2 \<and> byName arr2 = byName arr'
           \<and> byId arr2 = byId arr' \<and> byTag arr2 = byTag arr'"
    then have "arr' = arr\<lparr>byName := Some (ByName data), byId := Some (ById data),
                          byTag := Some (ByTag data)\<rparr>"
      by (simp add: h')
    with p have m: "h2 data = Some arr2" "byName arr2 = Some (ByName data)"
      "byId arr2 = Some (ById data)" "byTag arr2 = Some (ByTag data)"
      by simp_all
    show "call_byId h2 data v =
               Inr (Item (Array_find (\<lambda>item. strict_equals (chunk_id item) v) (elems arr2)))
           \<and> call_byName h2 data v =
               Inr (Item (Array_find (\<lambda>item. strict_equals (chunk_name item) v) (elems arr2)))
           \<and> call_byTag h2 data v =
               (case Array_filter (has_tag v) (elems arr2) of
                  Inl e \<Rightarrow> Inl e | Inr kept \<Rightarrow> Inr (Items kept))"
      using m by (simp add: call_byId_member call_byName_member call_byTag_member)
  qed
  from r 2 3 4 5 show ?thesis by blast
qed

theorem enrich_frame_and_views_witness:
  "\<exists>h1 h2. enrichCollectionWithByMethods
         (parsed(5 \<mapsto> \<lparr>elems = [], byName = None, byId = None, byTag = None\<rparr>)) 5 = Inr (h1, 5)
     \<and> h1 0 = parsed 0
     \<and> call_byId h1 5 (PNum 8) = Inr (Item None)
     \<and> Array_push h1 5 chunk8 = Inr h2
     \<and> call_byId h2 5 (PNum 8) = Inr (Item (Some chunk8))"
proof -
  define h :: heap where "h = parsed(5 \<mapsto> \<lparr>elems = [], byName = None, byId = None, byTag = None\<rparr>)"
  define arr1 :: array_obj where "arr1 = \<lparr>elems = [], byName = Some (ByName 5), byId = Some (ById 5),
      byTag = Some (ByTag 5)\<rparr>"
  define h1 :: heap where "h1 = h(5 \<mapsto> arr1)"
  define h2 :: heap where "h2 = h1(5 \<mapsto> arr1\<lparr>elems := [chunk8]\<rparr>)"
  have e: "enrichCollectionWithByMethods h 5 = Inr (h1, 5)"
    by (simp add: enrichCollectionWithByMethods_def h_def h1_def arr1_def)
  have a1: "h1 5 = Some arr1" by (simp add: h1_def)
  have a2: "h2 5 = Some (arr1\<lparr>elems := [chunk8]\<rparr>)" by (simp add: h2_def)
  have p: "Array_push h1 5 chunk8 = Inr h2"
    by (simp add: Array_push_def a1 h2_def arr1_def)
  note t = enrich_frame_and_views [OF e]
  have f: "h1 0 = parsed 0"
    using t by (simp add: h_def)
  from t have v: "\<And>h2 arr' arr2 v.
           h1 5 = Some arr' \<and> h2 5 = Some arr2 \<and> byName arr2 = byName arr'
           \<and> byId arr2 = byId arr' \<and> byTag arr2 = byTag arr' \<Longrightarrow>
             call_byId h2 5 v =
               Inr (Item (Array_find (\<lambda>item. strict_equals (chunk_id item) v) (elems arr2)))"
    by blast
  have 1: "call_byId h1 5 (PNum 8) = Inr (Item None)"
    using v [of arr1 h1 arr1 "PNum 8"] a1 by (simp add: arr1_def)
  have 2: "call_byId h2 5 (PNum 8) = Inr (Item (Some chunk8))"
    using v [of arr1 h2 "arr1\<lparr>elems := [chunk8]\<rparr>" "PNum 8"] a1 a2
    by (simp add: example_ids)
  from e f 1 p 2 show ?thesis unfolding h_def by blast
qed


text \<open>
  Claim C10. The lookups compare with strict equality: \<open>byId\<close> finds nothing when the
  argument has another type than every stored id, even where the stored id prints as the
  argument; whatever \<open>byId\<close>, \<open>byName\<close> and \<open>byTag\<close> return matches the argument
  exactly, and strings differing in case do not match.
\<close>

theorem lookups_strict_equality:
  assumes "enrichCollectionWithByMethods h data = Inr (h', r)" and "h' r = Some arr'"
  shows "((\<forall>c\<in>set (elems arr'). typeof (chunk_id c) \<noteq> typeof v) \<longrightarrow>
            call_byId h' r v = Inr (Item None))
     \<and> ((\<forall>c\<in>set (elems arr'). typeof (chunk_name c) \<noteq> typeof v) \<longrightarrow>
            call_byName h' r v = Inr (Item None))
     \<and> (\<forall>c. call_byId h' r v = Inr (Item (Some c)) \<longrightarrow> chunk_id c = v)
     \<and> (\<forall>c. call_byName h' r v = Inr (Item (Some c)) \<longrightarrow> chunk_name c = v)
     \<and> (\<forall>cs. call_byTag h' r v = Inr (Items cs) \<longrightarrow> (\<forall>c\<in>set cs. v \<in> set (tags_of c)))
     \<and> (\<forall>a b. strict_equals a b \<longleftrightarrow> a = b)"
proof -
  note m = enriched_members [OF assms]
  have i: "call_byId h' r v =
      Inr (Item (Array_find (\<lambda>item. strict_equals (chunk_id item) v) (elems arr')))"
    using assms(2) m by (simp add: call_byId_member)
  have n: "call_byName h' r v =
      Inr (Item (Array_find (\<lambda>item. strict_equals (chunk_name item) v) (elems arr')))"
    using assms(2) m by (simp add: call_byName_member)
  have t: "call_byTag h' r v =
     (case Array_filter (has_tag v) (elems arr') of Inl e \<Rightarrow> Inl e | Inr kept \<Rightarrow> Inr (Items kept))"
    using assms(2) m by (simp add: call_byTag_member)
  have 1: "(\<forall>c\<in>set (elems arr'). typeof (chunk_id c) \<noteq> typeof v) \<longrightarrow>
            call_byId h' r v = Inr (Item None)"
    by (auto simp: i Array_find_None_iff strict_equals_iff)
  have 2: "(\<forall>c\<in>set (elems arr'). typeof (chunk_name c) \<noteq> typeof v) \<longrightarrow>
            call_byName h' r v = Inr (Item None)"
    by (auto simp: n Array_find_None_iff strict_equals_iff)
  have 3: "\<forall>c. call_byId h' r v = Inr (Item (Some c)) \<longrightarrow> chunk_id c = v"
    by (auto simp: i Array_find_Some_iff strict_equals_iff)
  have 4: "\<forall>c. call_byName h' r v = Inr (Item (Some c)) \<longrightarrow> chunk_name c = v"
    by (auto simp: n Array_find_Some_iff strict_equals_iff)
  have 5: "\<forall>cs. call_byTag h' r v = Inr (Items cs) \<longrightarrow> (\<forall>c\<in>set cs. v \<in> set (tags_of c))"
  proof (intro allI impI)
    fix cs assume "call_byTag h' r v = Inr (Items cs)"
    then have "Array_filter (has_tag v) (elems arr') = Inr cs"
      by (simp add: t split: sum.splits)
    then show "\<forall>c\<in>set cs. v \<in> set (tags_of c)"
      using Array_filter_sound by blast
  qed
  have 6: "\<forall>a b. strict_equals a b \<longleftrightarrow> a = b"
    by (simp add: strict_equals_iff)
  from 1 2 3 4 5 6 show ?thesis by blast
qed

theorem lookups_strict_equality_witness:
  "\<exists>h' arr'. results = Inr (h', 0) \<and> h' 0 = Some arr'
     \<and> chunk8 \<in> set (elems arr') \<and> chunk_id chunk8 = PNum 8 \<and> ToString (PNum 8) = ''8''
     \<and> call_byId h' 0 (PStr ''8'') = Inr (Item None)
     \<and> call_byId h' 0 (PNum 8) = Inr (Item (Some chunk8))
     \<and> call_byName h' 0 (PStr ''Index-Heading'') = Inr (Item None)
     \<and> call_byTag h' 0 (PStr ''Index-Page'') = Inr (Items [])"
proof -
  obtain h' arr' where e: "enrichCollectionWithByMethods parsed 0 = Inr (h', 0)"
    and r: "results = Inr (h', 0)" and a: "h' 0 = Some arr'"
    and xs: "elems arr' = [chunk6, chunk7, chunk8, chunk9]"
    by (rule results_enriched)
  have "\<forall>c\<in>set (elems arr'). typeof (chunk_id c) \<noteq> typeof (PStr ''8'')"
    by (simp add: xs example_ids)
  then have 1: "call_byId h' 0 (PStr ''8'') = Inr (Item None)"
    using lookups_strict_equality [OF e a, where v = "PStr ''8''"] by blast
  have 2: "call_byId h' 0 (PNum 8) = Inr (Item (Some chunk8))"
    using a enriched_members [OF e a]
    by (simp add: call_byId_member xs example_ids)
  have 3: "chunk8 \<in> set (elems arr')" by (simp add: xs)
  have 4: "ToString (PNum 8) = ''8''"
    by (simp add: Number_toString_def digits.simps [of 8])
  have 5: "call_byName h' 0 (PStr ''Index-Heading'') = Inr (Item None)"
    using a enriched_members [OF e a]
    by (simp add: call_byName_member xs example_names)
  have 6: "call_byTag h' 0 (PStr ''Index-Page'') = Inr (Items [])"
    using a enriched_members [OF e a]
    by (simp add: call_byTag_member xs has_tag_def example_tags)
  from r a 1 2 3 4 5 6 example_ids(3) show ?thesis by blast
qed

section \<open>The constructor\<close>

lemma endsWithForwardSlash_snoc2:
  "endsWithForwardSlash (s @ [d, c]) \<longleftrightarrow> c = CHR ''/'' \<and> \<not> isLineTerminator d"
  by (simp add: endsWithForwardSlash_def)

lemma endsWithForwardSlash_regex:
  "endsWithForwardSlash input \<longleftrightarrow>
     (\<exists>pre mid. input = pre @ mid @ ''/'' \<and> mid \<noteq> [] \<and> (\<forall>c\<in>set mid. \<not> isLineTerminator c))"
proof
  assume "endsWithForwardSlash input"
  then obtain c d r where r: "rev input = c # d # r" and c: "c = CHR ''/''" and d: "\<not> isLineTerminator d"
    by (auto simp: endsWithForwardSlash_def split: list.splits)
  from r have "input = rev r @ [d] @ [c]"
    by (metis append_Cons append_Nil rev.simps(2) rev_rev_ident append_assoc)
  with c d have "input = rev r @ [d] @ ''/'' \<and> [d] \<noteq> [] \<and> (\<forall>c\<in>set [d]. \<not> isLineTerminator c)"
    by simp
  then show "\<exists>pre mid. input = pre @ mid @ ''/'' \<and> mid \<noteq> [] \<and> (\<forall>c\<in>set mid. \<not> isLineTerminator c)"
    by blast
next
  assume "\<exists>pre mid. input = pre @ mid @ ''/'' \<and> mid \<noteq> [] \<and> (\<forall>c\<in>set mid. \<not> isLineTerminator c)"
  then obtain pre mid where i: "input = pre @ mid @ ''/''" and m: "mid \<noteq> []"
    and t: "\<forall>c\<in>set mid. \<not> isLineTerminator c"
    by blast
  from m obtain ms d where mid: "mid = ms @ [d]"
    by (metis rev_exhaust)
  with t have "\<not> isLineTerminator d" by simp
  moreover from i mid have "input = (pre @ ms) @ [d, CHR ''/'']" by simp
  ultimately show "endsWithForwardSlash input"
    using endsWithForwardSlash_snoc2 [of "pre @ ms" d "CHR ''/''"] by simp
qed

lemma Client_serverUrl:
  "serverUrl (Client url opts) = url @ (if endsWithForwardSlash url then [] else ''/'')"
  by (simp add: Client_def Let_def)

lemma Client_apiUrl: "apiUrl (Client url opts) = serverUrl (Client url opts) @ ''api/content/''"
  by (simp add: Client_def Let_def)

lemma endsWithForwardSlash_last: "endsWithForwardSlash url \<Longrightarrow> url \<noteq> [] \<and> last url = CHR ''/''"
  by (auto simp: endsWithForwardSlash_regex)

lemma Client_serverUrl_ends_with_slash:
  "serverUrl (Client url opts) \<noteq> [] \<and> last (serverUrl (Client url opts)) = CHR ''/''"
proof (cases "endsWithForwardSlash url")
  case True
  then show ?thesis using endsWithForwardSlash_last [OF True] by (simp add: Client_serverUrl)
next
  case False
  then show ?thesis by (simp add: Client_serverUrl)
qed

lemma Client_appends_when_no_slash:
  "url = [] \<or> last url \<noteq> CHR ''/'' \<Longrightarrow> serverUrl (Client url opts) = url @ ''/''"
proof -
  assume "url = [] \<or> last url \<noteq> CHR ''/''"
  then have "\<not> endsWithForwardSlash url"
    using endsWithForwardSlash_last [of url] by blast
  then show ?thesis by (simp add: Client_serverUrl)
qed

lemma Client_keeps_slash:
  "\<not> isLineTerminator d \<Longrightarrow> serverUrl (Client (s @ [d] @ ''/'') opts) = s @ [d] @ ''/''"
  by (simp add: Client_serverUrl endsWithForwardSlash_def)

text \<open>
  Claim C9. The constructor is to leave a server URL that ends with a slash as it is and
  to append a slash to any other. The URL \<^verbatim>\<open>/\<close> ends with a slash, and the test of
  \<open>endsWithForwardSlash\<close> misses it: the client gets the server URL \<^verbatim>\<open>//\<close> and builds
  its requests under \<^verbatim>\<open>//api/content/\<close>. The pattern in \<^verbatim>\<open>create\<close> does recognise
  the slash of \<^verbatim>\<open>/\<close>.
\<close>

theorem Client_root_url_doubles_slash:
  "last ''/'' = CHR ''/''
   \<and> endsWithForwardSlash ''/'' = False
   \<and> serverUrl (Client ''/'' None) = ''//''
   \<and> apiUrl (Client ''/'' None) = ''//api/content/''
   \<and> requestToUrl (Client ''/'' None) [(''ids'', Arr [PNum 29, PNum 30])]
        = Inr ''//api/content/byids/29/30''
   \<and> replace_trailing_slash ''/'' = []"
proof -
  have e: "endsWithForwardSlash ''/'' = False" by (simp add: endsWithForwardSlash_def)
  have s: "serverUrl (Client ''/'' None) = ''//''" by (simp add: Client_serverUrl e)
  have a: "apiUrl (Client ''/'' None) = ''//api/content/''" by (simp add: Client_apiUrl s)
  have c: "classify [(''ids'', Arr [PNum 29, PNum 30])] = Some Ids"
    by (simp add: classify_cases present_def)
  have n: "Number_toString 29 = ''29''" "Number_toString 30 = ''30''"
    by (simp_all add: Number_toString_def digits_29 digits_30)
  have j: "call_join (Get [(''ids'', Arr [PNum 29, PNum 30])] ''ids'') ''/'' = Inr ''29/30''"
    by (simp add: Get_def call_join_def Array_join_def join_element_def n)
  have u: "requestToUrl (Client ''/'' None) [(''ids'', Arr [PNum 29, PNum 30])]
        = Inr ''//api/content/byids/29/30''"
    by (simp add: requestToUrl_classified [OF c] j a)
  have r: "replace_trailing_slash ''/'' = []" by (simp add: replace_trailing_slash_def)
  have l: "last ''/'' = CHR ''/''" by simp
  show ?thesis by (intro conjI) (rule e s a u r l)+
qed

end
